theory Spec2Isabelle
  imports Complex_Main "HOL-Library.Sublist"
begin

section \<open>Python values and the operations main.py applies to them\<close>

text \<open>
  Every value that main.py navigates comes out of \<^verbatim>\<open>json.loads\<close> /
  \<^verbatim>\<open>response.json()\<close>, so the model works on decoded JSON: \<open>None\<close>, booleans,
  unbounded integers, floats, strings, lists and dictionaries. A dictionary is an
  association list in insertion order, looked up with \<open>map_of\<close>. A float carries
  its numeric value (\<open>None\<close> for \<open>NaN\<close> and the infinities, which \<^verbatim>\<open>json.loads\<close>
  accepts); the program only tests floats for truth and for equality with \<open>20000\<close>,
  and both depend on the value alone. A \<open>char\<close> stands for one character of a
  Python \<open>str\<close>; the character classes below are those of Python on the code points
  \<open>0..255\<close>.
\<close>

datatype json =
    JNull
  | JBool bool
  | JInt int
  | JFloat "real option"
  | JStr string
  | JList "json list"
  | JDict "(string \<times> json) list"

text \<open>
  The exceptions that can leave the functions of main.py. \<open>StopException\<close> is
  what \<^verbatim>\<open>st.stop()\<close> raises to end the script run; \<open>RequestError\<close> and
  \<open>APIError\<close> stand for whatever \<^verbatim>\<open>requests.post\<close> and the chat client raise.
\<close>

datatype py_error =
    KeyError
  | IndexError
  | TypeError
  | AttributeError
  | JSONDecodeError
  | RequestError
  | APIError
  | StopException

type_synonym 'a result = "py_error + 'a"

fun py_bind :: "'a result \<Rightarrow> ('a \<Rightarrow> 'b result) \<Rightarrow> 'b result" where
  "py_bind (Inl e) f = Inl e"
| "py_bind (Inr x) f = f x"

text \<open>Truth value of an object, as \<^verbatim>\<open>if x\<close> and \<^verbatim>\<open>not x\<close> take it.\<close>

fun truthy :: "json \<Rightarrow> bool" where
  "truthy JNull = False"
| "truthy (JBool b) = b"
| "truthy (JInt i) = (i \<noteq> 0)"
| "truthy (JFloat None) = True"
| "truthy (JFloat (Some x)) = (x \<noteq> 0)"
| "truthy (JStr s) = (s \<noteq> [])"
| "truthy (JList xs) = (xs \<noteq> [])"
| "truthy (JDict kvs) = (kvs \<noteq> [])"

text \<open>\<^verbatim>\<open>x == n\<close> for an integer literal \<open>n\<close>: numbers compare by value, and
  \<open>True\<close>, \<open>False\<close> are the integers 1 and 0.\<close>

fun py_eq_int :: "json \<Rightarrow> int \<Rightarrow> bool" where
  "py_eq_int (JInt i) n = (i = n)"
| "py_eq_int (JFloat (Some x)) n = (x = of_int n)"
| "py_eq_int (JBool b) n = ((if b then 1 else 0) = n)"
| "py_eq_int _ n = False"

text \<open>\<^verbatim>\<open>x == s\<close> for a string literal \<open>s\<close>.\<close>

fun py_eq_str :: "json \<Rightarrow> string \<Rightarrow> bool" where
  "py_eq_str (JStr t) s = (t = s)"
| "py_eq_str _ s = False"

text \<open>\<^verbatim>\<open>x.get(k, d)\<close>: only a dictionary has the method.\<close>

fun py_get :: "json \<Rightarrow> string \<Rightarrow> json \<Rightarrow> json result" where
  "py_get (JDict kvs) k d = Inr (case map_of kvs k of None \<Rightarrow> d | Some v \<Rightarrow> v)"
| "py_get _ k d = Inl AttributeError"

text \<open>\<^verbatim>\<open>x[k]\<close> for a string literal \<open>k\<close>: a missing key is a \<open>KeyError\<close>; a list
  or a string refuses a string index and the other objects are not subscriptable.\<close>

fun py_getitem :: "json \<Rightarrow> string \<Rightarrow> json result" where
  "py_getitem (JDict kvs) k = (case map_of kvs k of None \<Rightarrow> Inl KeyError | Some v \<Rightarrow> Inr v)"
| "py_getitem _ k = Inl TypeError"

text \<open>\<^verbatim>\<open>x[0]\<close>: the first element of a list, the first character of a string;
  a dictionary decoded from JSON has string keys only, so the key \<open>0\<close> is missing.\<close>

fun py_first :: "json \<Rightarrow> json result" where
  "py_first (JList []) = Inl IndexError"
| "py_first (JList (x # xs)) = Inr x"
| "py_first (JStr []) = Inl IndexError"
| "py_first (JStr (c # cs)) = Inr (JStr [c])"
| "py_first (JDict kvs) = Inl KeyError"
| "py_first _ = Inl TypeError"

text \<open>\<^verbatim>\<open>k in x\<close> for a string literal \<open>k\<close>: a key of a dictionary, an element of
  a list, a substring of a string; the other objects are not iterable.\<close>

fun py_contains :: "string \<Rightarrow> json \<Rightarrow> bool result" where
  "py_contains k (JDict kvs) = Inr (k \<in> set (map fst kvs))"
| "py_contains k (JList xs) = Inr (list_ex (\<lambda>x. py_eq_str x k) xs)"
| "py_contains k (JStr s) = Inr (sublist k s)"
| "py_contains k _ = Inl TypeError"

text \<open>The elements a \<^verbatim>\<open>for\<close> loop or a comprehension visits: a dictionary yields
  its keys, a string its characters.\<close>

fun py_iter :: "json \<Rightarrow> json list result" where
  "py_iter (JList xs) = Inr xs"
| "py_iter (JDict kvs) = Inr (map (\<lambda>kv. JStr (fst kv)) kvs)"
| "py_iter (JStr s) = Inr (map (\<lambda>c. JStr [c]) s)"
| "py_iter _ = Inl TypeError"

text \<open>\<^verbatim>\<open>isinstance(x, dict)\<close>.\<close>

fun is_dict :: "json \<Rightarrow> bool" where
  "is_dict (JDict kvs) = True"
| "is_dict _ = False"

text \<open>\<^verbatim>\<open>x + s\<close> for a string \<open>s\<close>: concatenation when \<open>x\<close> is a string, a
  \<open>TypeError\<close> otherwise.\<close>

fun py_add_str :: "json \<Rightarrow> string \<Rightarrow> string result" where
  "py_add_str (JStr t) s = Inr (t @ s)"
| "py_add_str _ s = Inl TypeError"

text \<open>\<^verbatim>\<open>xs[:d]\<close>: a negative bound counts from the end.\<close>

definition py_slice_to :: "'a list \<Rightarrow> int \<Rightarrow> 'a list" where
  "py_slice_to xs d = (if d < 0 then take (nat (int (length xs) + d)) xs else take (nat d) xs)"

subsection \<open>Strings\<close>

text \<open>\<^verbatim>\<open>str.isspace\<close> on one character, which is also the class \<^verbatim>\<open>\s\<close> of
  \<^verbatim>\<open>re\<close> on a \<open>str\<close> pattern: TAB, LF, VT, FF, CR, the separators
  \<open>0x1C..0x1F\<close>, the space, NEL and the no-break space.\<close>

definition is_space :: "char \<Rightarrow> bool" where
  "is_space c \<longleftrightarrow> c \<in> set [CHR 0x09, CHR 0x0A, CHR 0x0B, CHR 0x0C, CHR 0x0D,
      CHR 0x1C, CHR 0x1D, CHR 0x1E, CHR 0x1F, CHR 0x20, CHR 0x85, CHR 0xA0]"

text \<open>The class \<^verbatim>\<open>\d\<close>: the decimal digits.\<close>

definition is_digit :: "char \<Rightarrow> bool" where
  "is_digit c \<longleftrightarrow> c \<in> set ''0123456789''"

text \<open>\<^verbatim>\<open>s.strip()\<close>: leading and trailing whitespace removed.\<close>

definition strip :: "string \<Rightarrow> string" where
  "strip s = rev (dropWhile is_space (rev (dropWhile is_space s)))"

text \<open>\<^verbatim>\<open>x.strip()\<close> on an object: only a string has the method.\<close>

fun py_strip :: "json \<Rightarrow> string result" where
  "py_strip (JStr s) = Inr (strip s)"
| "py_strip _ = Inl AttributeError"

text \<open>\<^verbatim>\<open>s.split(sep)\<close> for a one-character separator: always at least one
  piece, empty pieces kept.\<close>

fun split_on :: "char \<Rightarrow> string \<Rightarrow> string list" where
  "split_on sep [] = [[]]"
| "split_on sep (c # cs) =
     (if c = sep then [] # split_on sep cs
      else (case split_on sep cs of [] \<Rightarrow> [[c]] | p # ps \<Rightarrow> (c # p) # ps))"

text \<open>\<^verbatim>\<open>sep.join(xs)\<close> on strings.\<close>

fun join :: "string \<Rightarrow> string list \<Rightarrow> string" where
  "join sep [] = []"
| "join sep [x] = x"
| "join sep (x # y # ys) = x @ sep @ join sep (y # ys)"

text \<open>\<^verbatim>\<open>sep.join(xs)\<close> on objects: every element has to be a string.\<close>

fun py_strs :: "json list \<Rightarrow> string list result" where
  "py_strs [] = Inr []"
| "py_strs (JStr s # xs) = py_bind (py_strs xs) (\<lambda>ss. Inr (s # ss))"
| "py_strs (x # xs) = Inl TypeError"

definition py_join :: "string \<Rightarrow> json list \<Rightarrow> string result" where
  "py_join sep xs = py_bind (py_strs xs) (\<lambda>ss. Inr (join sep ss))"

section \<open>The outside world\<close>

text \<open>
  What \<^verbatim>\<open>requests.post\<close> hands back: the HTTP status and the payload as
  \<^verbatim>\<open>response.json()\<close> decodes it, \<open>None\<close> when the payload is not JSON and the
  call raises.
\<close>

record response =
  status_code :: int
  body :: "json option"

definition response_json :: "response \<Rightarrow> json result" where
  "response_json r = (case body r of None \<Rightarrow> Inl JSONDecodeError | Some data \<Rightarrow> Inr data)"

text \<open>One chat-completion call: the arguments main.py passes to
  \<^verbatim>\<open>chat.completions.create\<close>, with the single user message as \<open>prompt\<close>.\<close>

record chat_request =
  model :: string
  prompt :: string
  max_tokens :: nat
  temperature :: real

text \<open>
  The three remote services and the JSON decoder are taken as they answer: the
  search endpoint by keyword, the content-parsing endpoint by the URL object put
  in the payload, the chat endpoint by request (yielding
  \<^verbatim>\<open>response.choices[0].message.content\<close>), and \<^verbatim>\<open>json.loads\<close> by text
  (\<open>None\<close> when it raises). The credentials, headers and endpoint addresses are
  the same in every call and are part of these functions. A failed call is an
  \<open>Inl\<close>. Since each answer is a function of the arguments, the one-hour
  \<^verbatim>\<open>st.cache_data\<close> layer returns what the call itself would.
\<close>

record services =
  serp_post :: "string \<Rightarrow> response result"
  content_post :: "json \<Rightarrow> response result"
  chat_create :: "chat_request \<Rightarrow> string result"
  json_loads :: "string \<Rightarrow> json option"

section \<open>Search results: \<^verbatim>\<open>cached_serp\<close>\<close>

text \<open>\<^verbatim>\<open>data["tasks"][0]["result"][0]["items"]\<close>.\<close>

definition serp_items :: "json \<Rightarrow> json result" where
  "serp_items data =
     py_bind (py_getitem data ''tasks'') (\<lambda>tasks.
     py_bind (py_first tasks) (\<lambda>task.
     py_bind (py_getitem task ''result'') (\<lambda>result.
     py_bind (py_first result) (\<lambda>r0.
     py_getitem r0 ''items''))))"

text \<open>\<^verbatim>\<open>[r for r in results if r["type"] == "organic"]\<close>.\<close>

fun organic_only :: "json list \<Rightarrow> json list result" where
  "organic_only [] = Inr []"
| "organic_only (r # rs) =
     py_bind (py_getitem r ''type'') (\<lambda>t.
     py_bind (organic_only rs) (\<lambda>kept.
     Inr (if py_eq_str t ''organic'' then r # kept else kept)))"

text \<open>The condition of that comprehension, false where evaluating it raises.\<close>

definition is_organic :: "json \<Rightarrow> bool" where
  "is_organic r =
     (case py_getitem r ''type'' of Inl e \<Rightarrow> False | Inr t \<Rightarrow> py_eq_str t ''organic'')"

definition cached_serp :: "services \<Rightarrow> string \<Rightarrow> int \<Rightarrow> json list result" where
  "cached_serp sv keyword depth =
     py_bind (serp_post sv keyword) (\<lambda>response.
       if status_code response = 200 then
         py_bind (response_json response) (\<lambda>data.
         py_bind (py_get data ''status_code'' JNull) (\<lambda>code.
           if py_eq_int code 20000 then
             py_bind (serp_items data) (\<lambda>results.
             py_bind (py_iter results) (\<lambda>rs.
             py_bind (organic_only rs) (\<lambda>kept.
             Inr (py_slice_to kept depth))))
           else Inr []))
       else Inr [])"

definition get_serp_results :: "services \<Rightarrow> string \<Rightarrow> json list result" where
  "get_serp_results sv keyword = cached_serp sv keyword 5"

section \<open>Page text: \<^verbatim>\<open>cached_content_full\<close> and \<^verbatim>\<open>extract_text\<close>\<close>

text \<open>Python's \<open>None\<close> and a decoded JSON \<open>null\<close> are the same object.\<close>

definition cached_content_full :: "services \<Rightarrow> json \<Rightarrow> json result" where
  "cached_content_full sv url =
     py_bind (content_post sv url) (\<lambda>response.
       if status_code response = 200 then response_json response else Inr JNull)"

text \<open>The inner loop over \<^verbatim>\<open>topic.get("primary_content", [])\<close>, threading \<open>text\<close>.\<close>

fun add_primary_content :: "json list \<Rightarrow> string \<Rightarrow> string result" where
  "add_primary_content [] text = Inr text"
| "add_primary_content (c # cs) text =
     (if is_dict c then
        py_bind (py_get c ''text'' JNull) (\<lambda>t.
          if truthy t then
            py_bind (py_getitem c ''text'') (\<lambda>v.
            py_bind (py_add_str v '' '') (\<lambda>piece.
            add_primary_content cs (text @ piece)))
          else add_primary_content cs text)
      else add_primary_content cs text)"

text \<open>The outer loop over \<^verbatim>\<open>page.get("main_topic", [])\<close>.\<close>

fun add_main_topics :: "json list \<Rightarrow> string \<Rightarrow> string result" where
  "add_main_topics [] text = Inr text"
| "add_main_topics (topic # topics) text =
     py_bind (py_get topic ''primary_content'' (JList [])) (\<lambda>pc.
     py_bind (py_iter pc) (\<lambda>cs.
     py_bind (add_primary_content cs text) (\<lambda>text'.
     add_main_topics topics text')))"

definition page_text :: "json \<Rightarrow> string result" where
  "page_text page =
     py_bind (py_get page ''main_topic'' (JList [])) (\<lambda>mt.
     py_bind (py_iter mt) (\<lambda>topics.
     py_bind (add_main_topics topics []) (\<lambda>text.
     Inr (take 4000 text))))"

definition extract_text :: "services \<Rightarrow> json \<Rightarrow> string result" where
  "extract_text sv url =
     py_bind (cached_content_full sv url) (\<lambda>data.
       if \<not> truthy data then Inr []
       else
         py_bind (py_get data ''status_code'' JNull) (\<lambda>code.
           if \<not> py_eq_int code 20000 then Inr []
           else
             py_bind (py_get data ''result'' (JList [])) (\<lambda>result.
               if \<not> truthy result then Inr []
               else
                 py_bind (py_first result) (\<lambda>r0.
                 py_bind (py_contains ''items'' r0) (\<lambda>has_items.
                   if \<not> has_items then Inr []
                   else
                     py_bind (py_getitem r0 ''items'') (\<lambda>items.
                       if \<not> truthy items then Inr []
                       else
                         py_bind (py_first items) (\<lambda>i0.
                         py_bind (py_contains ''page_content'' i0) (\<lambda>has_page.
                           if \<not> has_page then Inr []
                           else
                             py_bind (py_getitem i0 ''page_content'') page_text))))))))"

section \<open>The language model: \<^verbatim>\<open>summarize_sources\<close> and \<^verbatim>\<open>generate_posts\<close>\<close>

definition nl :: string where
  "nl = [CHR 0x0A]"

definition dquote :: string where
  "dquote = [CHR 0x22]"

text \<open>\<^verbatim>\<open>str(n)\<close> for an integer, as an f-string renders it.\<close>

fun str_nat :: "nat \<Rightarrow> string" where
  "str_nat n =
     (if n < 10 then [''0123456789'' ! n]
      else str_nat (n div 10) @ [''0123456789'' ! (n mod 10)])"

definition str_int :: "int \<Rightarrow> string" where
  "str_int i = (if i < 0 then ''-'' @ str_nat (nat (- i)) else str_nat (nat i))"

definition summarize_prompt :: "string \<Rightarrow> string \<Rightarrow> string" where
  "summarize_prompt topic sources_text = concat
     [nl, ''Sei un analista SEO. Riassumi le informazioni pi'', [CHR 0xF9], '' utili su '',
        dquote, topic, dquote, '' basandoti sui testi forniti.'',
      nl, ''Sintesi 150-200 parole + 3-5 punti chiave.'',
      nl,
      nl, ''TESTI:'',
      nl, sources_text,
      nl,
      nl, ''OUTPUT:'',
      nl, ''1. Sintesi'',
      nl, ''2. Punti chiave (bullet)'',
      nl]"

definition summarize_sources :: "services \<Rightarrow> string \<Rightarrow> string \<Rightarrow> string result" where
  "summarize_sources sv topic sources_text =
     chat_create sv
       \<lparr>model = ''gpt-4.1'', prompt = summarize_prompt topic sources_text,
        max_tokens = 1200, temperature = 5 / 10\<rparr>"

definition posts_prompt ::
    "string \<Rightarrow> string \<Rightarrow> string \<Rightarrow> string \<Rightarrow> string \<Rightarrow> int \<Rightarrow> string" where
  "posts_prompt business sector topic brief summary n_posts = concat
     [nl, ''Sei un copywriter Local SEO esperto.'',
      nl, ''Genera '', str_int n_posts, '' post per Google Business Profile.'',
      nl,
      nl, ''Azienda: '', business,
      nl, ''Settore: '', sector,
      nl, ''Argomento: '', topic,
      nl, ''Brief aggiuntivo: '', brief,
      nl, ''Informazioni di riferimento: '', summary,
      nl,
      nl, ''Regole:'',
      nl, ''- 80-120 parole'',
      nl, ''- tono professionale'',
      nl, ''- CTA locale soft (contattaci, vieni in sede, ecc.)'',
      nl, ''- nessuna frase generica'',
      nl,
      nl, ''Rispondi SOLO in JSON:'',
      nl, ''{'',
      nl, ''  '', dquote, ''posts'', dquote, '': ['', dquote, ''testo post 1'', dquote, '', '',
            dquote, ''testo post 2'', dquote, '', ...]'',
      nl, ''}'',
      nl]"

text \<open>
  The pattern \<^verbatim>\<open>POST\s*\d+[:\-]\<close> tried at the start of \<open>s\<close>: the length of
  the match, if there is one. After \<open>POST\<close> the run of whitespace and then the run
  of digits are taken to their ends: a shorter run would leave a whitespace
  character where a digit is required, or a digit where \<open>:\<close> or \<open>-\<close> is, so
  backtracking finds no other match.
\<close>

definition post_marker :: "string \<Rightarrow> nat option" where
  "post_marker s =
     (let ws = takeWhile is_space (drop 4 s);
          ds = takeWhile is_digit (drop (4 + length ws) s);
          n = 4 + length ws + length ds
      in if take 4 s = ''POST'' \<and> ds \<noteq> [] \<and>
            (case drop n s of [] \<Rightarrow> False | c # cs \<Rightarrow> c = CHR '':'' \<or> c = CHR ''-'')
         then Some (n + 1) else None)"

text \<open>
  \<^verbatim>\<open>re.split(pattern, s)\<close> for a pattern without groups, given as the function
  \<open>m\<close> that matches it at the start of a text: the text is scanned from the left,
  the leftmost match ends the current piece, and the scan goes on behind the
  match. \<open>skip\<close> counts the characters of the current match still to pass.
\<close>

fun re_split_from :: "(string \<Rightarrow> nat option) \<Rightarrow> nat \<Rightarrow> string \<Rightarrow> string list" where
  "re_split_from m skip [] = [[]]"
| "re_split_from m (Suc skip) (c # cs) = re_split_from m skip cs"
| "re_split_from m 0 (c # cs) =
     (case m (c # cs) of
        None \<Rightarrow> (case re_split_from m 0 cs of [] \<Rightarrow> [[c]] | p # ps \<Rightarrow> (c # p) # ps)
      | Some n \<Rightarrow>
          if n = 0 then (case re_split_from m 0 cs of [] \<Rightarrow> [[c]] | p # ps \<Rightarrow> (c # p) # ps)
          else [] # re_split_from m (n - 1) cs)"

definition re_split :: "(string \<Rightarrow> nat option) \<Rightarrow> string \<Rightarrow> string list" where
  "re_split m s = re_split_from m 0 s"

text \<open>The \<^verbatim>\<open>except\<close> branch of \<^verbatim>\<open>generate_posts\<close>.\<close>

definition fallback_posts :: "string \<Rightarrow> string list" where
  "fallback_posts content = [strip p. p \<leftarrow> re_split post_marker content, strip p \<noteq> []]"

text \<open>The \<^verbatim>\<open>try\<close> block: \<^verbatim>\<open>json.loads\<close>, then \<^verbatim>\<open>data.get("posts", [])\<close>.\<close>

definition parse_posts :: "services \<Rightarrow> string \<Rightarrow> json result" where
  "parse_posts sv content =
     (case json_loads sv content of
        None \<Rightarrow> Inl JSONDecodeError
      | Some data \<Rightarrow> py_get data ''posts'' (JList []))"

text \<open>The bare \<^verbatim>\<open>except\<close> catches whatever the \<^verbatim>\<open>try\<close> block raises; the chat
  call stands before the \<^verbatim>\<open>try\<close>.\<close>

definition generate_posts ::
    "services \<Rightarrow> string \<Rightarrow> string \<Rightarrow> string \<Rightarrow> string \<Rightarrow> string \<Rightarrow> int \<Rightarrow> json result" where
  "generate_posts sv business sector topic brief summary n_posts =
     py_bind
       (chat_create sv
          \<lparr>model = ''gpt-4.1'', prompt = posts_prompt business sector topic brief summary n_posts,
           max_tokens = 2000, temperature = 7 / 10\<rparr>)
       (\<lambda>content.
          case parse_posts sv content of
            Inr posts \<Rightarrow> Inr posts
          | Inl e \<Rightarrow> Inr (JList (map JStr (fallback_posts content))))"

text \<open>
  The pattern as the specification words it, \<open>POST <digits>:\<close> or \<open>POST <digits>-\<close>:
  \<open>POST\<close>, one space, digits, then \<open>:\<close> or \<open>-\<close>. It is compared with
  \<open>post_marker\<close> below.
\<close>

definition spec_post_marker :: "string \<Rightarrow> nat option" where
  "spec_post_marker s =
     (let ds = takeWhile is_digit (drop 5 s);
          n = 5 + length ds
      in if take 5 s = ''POST '' \<and> ds \<noteq> [] \<and>
            (case drop n s of [] \<Rightarrow> False | c # cs \<Rightarrow> c = CHR '':'' \<or> c = CHR ''-'')
         then Some (n + 1) else None)"

definition spec_fallback_posts :: "string \<Rightarrow> string list" where
  "spec_fallback_posts content =
     [strip p. p \<leftarrow> re_split spec_post_marker content, strip p \<noteq> []]"

section \<open>The orchestrator: the body of \<^verbatim>\<open>if submit:\<close>\<close>

text \<open>The fields of the submitted form that the run reads.\<close>

record form =
  business :: string
  sector :: string
  website :: string
  topic_input :: string
  n_posts :: int
  brief :: string
  source_mode :: string

text \<open>One row of the plan: the dictionary appended to \<^verbatim>\<open>rows\<close>, with the columns
  \<open>Data pubblicazione\<close>, \<open>Argomento\<close>, \<open>Fonte\<close>, \<open>Contenuto post\<close> and \<open>Immagine\<close>.\<close>

record plan_row =
  data_pubblicazione :: string
  argomento :: string
  fonte :: string
  contenuto_post :: string
  immagine :: string

text \<open>\<^verbatim>\<open>[t.strip() for t in topic_input.split("\n") if t.strip()]\<close>.\<close>

definition parse_topics :: "string \<Rightarrow> string list" where
  "parse_topics input = [strip t. t \<leftarrow> split_on (CHR 0x0A) input, strip t \<noteq> []]"

text \<open>The query of one topic; \<^verbatim>\<open>source_mode.startswith("Dal sito")\<close> is a prefix
  test.\<close>

definition build_query :: "form \<Rightarrow> string \<Rightarrow> string" where
  "build_query f topic =
     (if prefix ''Dal sito'' (source_mode f) then topic @ '' site:'' @ website f else topic)"

text \<open>The loop over the search results, threading \<^verbatim>\<open>sources_text\<close> and
  \<^verbatim>\<open>sources_urls\<close>.\<close>

fun gather_sources ::
    "services \<Rightarrow> json list \<Rightarrow> string \<Rightarrow> json list \<Rightarrow> (string \<times> json list) result" where
  "gather_sources sv [] sources_text sources_urls = Inr (sources_text, sources_urls)"
| "gather_sources sv (r # rs) sources_text sources_urls =
     py_bind (py_getitem r ''url'') (\<lambda>url.
     py_bind (extract_text sv url) (\<lambda>text.
     gather_sources sv rs (sources_text @ text @ nl) (sources_urls @ [url])))"

text \<open>The dictionary appended for one post.\<close>

definition new_row :: "string \<Rightarrow> string \<Rightarrow> string \<Rightarrow> plan_row" where
  "new_row topic joined content =
     \<lparr>data_pubblicazione = [], argomento = topic, fonte = joined,
      contenuto_post = content, immagine = []\<rparr>"

text \<open>The loop over the posts, threading \<^verbatim>\<open>rows\<close>. The dictionary display
  evaluates the join before the strip.\<close>

fun append_rows ::
    "string \<Rightarrow> json list \<Rightarrow> json list \<Rightarrow> plan_row list \<Rightarrow> plan_row list result" where
  "append_rows topic sources_urls [] rows = Inr rows"
| "append_rows topic sources_urls (p # ps) rows =
     py_bind (py_join '', '' sources_urls) (\<lambda>joined.
     py_bind (py_strip p) (\<lambda>content.
     append_rows topic sources_urls ps (rows @ [new_row topic joined content])))"

text \<open>One pass of \<^verbatim>\<open>for topic in topics\<close>.\<close>

definition plan_topic :: "services \<Rightarrow> form \<Rightarrow> string \<Rightarrow> plan_row list \<Rightarrow> plan_row list result" where
  "plan_topic sv f topic rows =
     py_bind (get_serp_results sv (build_query f topic)) (\<lambda>serp.
     py_bind (gather_sources sv serp [] []) (\<lambda>(sources_text, sources_urls).
     py_bind (summarize_sources sv topic sources_text) (\<lambda>summary.
     py_bind (generate_posts sv (business f) (sector f) topic (brief f) summary (n_posts f)) (\<lambda>posts.
     py_bind (py_iter posts) (\<lambda>ps.
     append_rows topic sources_urls ps rows)))))"

fun plan_topics :: "services \<Rightarrow> form \<Rightarrow> string list \<Rightarrow> plan_row list \<Rightarrow> plan_row list result" where
  "plan_topics sv f [] rows = Inr rows"
| "plan_topics sv f (topic # topics) rows =
     py_bind (plan_topic sv f topic rows) (\<lambda>rows'. plan_topics sv f topics rows')"

text \<open>The whole run, up to the rows that become the table and the spreadsheet.
  With no topic left, \<^verbatim>\<open>st.stop()\<close> ends the run.\<close>

definition run_planner :: "services \<Rightarrow> form \<Rightarrow> plan_row list result" where
  "run_planner sv f =
     (let topics = parse_topics (topic_input f)
      in if topics = [] then Inl StopException else plan_topics sv f topics [])"

section \<open>Sample answers of the services\<close>

text \<open>
  Concrete payloads in the shape the two DataForSEO endpoints document, and
  services that give the same answer to every call; the examples below run the
  program on them.
\<close>

definition serp_item :: "string \<Rightarrow> string \<Rightarrow> json" where
  "serp_item kind url = JDict [(''type'', JStr kind), (''url'', JStr url)]"

definition serp_body :: "json list \<Rightarrow> json" where
  "serp_body items =
     JDict [(''status_code'', JInt 20000),
            (''tasks'', JList [JDict [(''result'', JList [JDict [(''items'', JList items)]])]])]"

definition page_body :: "json list \<Rightarrow> json" where
  "page_body blocks =
     JDict [(''status_code'', JInt 20000),
            (''result'', JList [JDict [(''items'', JList [JDict [(''page_content'',
               JDict [(''main_topic'', JList [JDict [(''primary_content'', JList blocks)]])])]])]])]"

definition ok_response :: "json \<Rightarrow> response" where
  "ok_response data = \<lparr>status_code = 200, body = Some data\<rparr>"

text \<open>What \<^verbatim>\<open>json.loads\<close> returns on the texts the examples pass to it: two of
  them are JSON objects, the others are not JSON.\<close>

definition sample_loads :: "string \<Rightarrow> json option" where
  \<open>sample_loads s =
     (if s = ''{"posts": ["a","b"]}'' then
        Some (JDict [(''posts'', JList [JStr ''a'', JStr ''b''])])
      else if s = ''{"post": "POST 1: a"}'' then
        Some (JDict [(''post'', JStr ''POST 1: a'')])
      else None)\<close>

definition sample_services :: "response \<Rightarrow> response \<Rightarrow> string \<Rightarrow> services" where
  "sample_services serp page reply =
     \<lparr>serp_post = (\<lambda>keyword. Inr serp), content_post = (\<lambda>url. Inr page),
      chat_create = (\<lambda>request. Inr reply), json_loads = sample_loads\<rparr>"

text \<open>A result page with paid and other entries among eight rows, six of them
  organic.\<close>

definition mixed_items :: "json list" where
  "mixed_items =
     [serp_item ''paid'' ''https://ads.example/1'',
      serp_item ''organic'' ''https://a.example'',
      serp_item ''people_also_ask'' [],
      serp_item ''organic'' ''https://b.example'',
      serp_item ''organic'' ''https://c.example'',
      serp_item ''organic'' ''https://d.example'',
      serp_item ''organic'' ''https://e.example'',
      serp_item ''organic'' ''https://f.example'']"

text \<open>A page with two text blocks among its primary content.\<close>

definition sample_page :: response where
  "sample_page = ok_response (page_body
     [JDict [(''text'', JStr ''Tostatura lenta'')],
      JStr ''banner'',
      JDict [(''text'', JStr [])],
      JDict [(''text'', JStr ''ogni giorno'')]])"

text \<open>A world where the search returns \<open>mixed_items\<close>, every page is
  \<open>sample_page\<close> and the model replies with two posts in JSON.\<close>

definition sample_world :: services where
  \<open>sample_world =
     sample_services (ok_response (serp_body mixed_items)) sample_page ''{"posts": ["a","b"]}''\<close>

text \<open>A submitted form: the one topic \<open>caffe artigianale\<close> (its \<open>e\<close> with a grave
  accent, code point \<open>0xE8\<close>) between padding and blank lines; two posts; a generic
  web query.\<close>

definition sample_topic :: string where
  "sample_topic = ''caff'' @ [CHR 0xE8] @ '' artigianale''"

definition sample_form :: form where
  "sample_form =
     \<lparr>business = ''Bar Roma'', sector = ''bar'', website = ''https://www.barroma.example'',
      topic_input = ''  '' @ sample_topic @ '' '' @ [CHR 0x0A] @ [CHR 0x0A] @
        '' '' @ [CHR 0x09] @ [CHR 0x0A],
      n_posts = 2, brief = [], source_mode = ''Dal web (query generica)''\<rparr>"

section \<open>Auxiliary facts\<close>

lemma py_bind_Inr_iff: "py_bind m f = Inr y \<longleftrightarrow> (\<exists>x. m = Inr x \<and> f x = Inr y)"
  by (cases m) auto

lemma organic_only_filter: "organic_only rs = Inr kept \<Longrightarrow> kept = filter is_organic rs"
  by (induction rs arbitrary: kept) (auto simp: py_bind_Inr_iff is_organic_def)

lemma is_organic_iff:
  "is_organic r \<longleftrightarrow> (\<exists>kvs. r = JDict kvs \<and> map_of kvs ''type'' = Some (JStr ''organic''))"
proof (cases r)
  case (JDict kvs)
  show ?thesis
  proof (cases "map_of kvs ''type''")
    case None
    with JDict show ?thesis by (simp add: is_organic_def)
  next
    case (Some t)
    with JDict show ?thesis by (cases t) (simp_all add: is_organic_def)
  qed
qed (simp_all add: is_organic_def)

section \<open>Search results\<close>

text \<open>
  C1. Whenever the search endpoint answers with an HTTP status other than 200,
  or with status 200 and a JSON object whose \<open>status_code\<close> entry is not 20000
  (or is missing), \<open>cached_serp\<close> returns the empty list and raises nothing; so
  does \<open>get_serp_results\<close>.
\<close>

theorem cached_serp_failure_is_empty:
  assumes "serp_post sv q = Inr r"
    and "status_code r \<noteq> 200 \<or>
         (\<exists>kvs. body r = Some (JDict kvs) \<and>
            \<not> py_eq_int (case map_of kvs ''status_code'' of None \<Rightarrow> JNull | Some v \<Rightarrow> v) 20000)"
  shows "cached_serp sv q depth = Inr [] \<and> get_serp_results sv q = Inr []"
  using assms by (auto simp: cached_serp_def get_serp_results_def response_json_def)

theorem cached_serp_failure_is_empty_witness:
  "cached_serp (sample_services \<lparr>status_code = 503, body = None\<rparr> (ok_response JNull) [])
      ''pizza'' 5 = Inr [] \<and>
   cached_serp (sample_services (ok_response (JDict [(''status_code'', JInt 40101)]))
      (ok_response JNull) []) ''pizza'' 5 = Inr [] \<and>
   cached_serp (sample_services (ok_response (JDict [])) (ok_response JNull) [])
      ''pizza'' 5 = Inr []"
proof -
  have a: "cached_serp (sample_services \<lparr>status_code = 503, body = None\<rparr> (ok_response JNull) [])
      ''pizza'' 5 = Inr []"
    using cached_serp_failure_is_empty
      [of "sample_services \<lparr>status_code = 503, body = None\<rparr> (ok_response JNull) []"
          "''pizza''" "\<lparr>status_code = 503, body = None\<rparr>" 5]
    by (simp add: sample_services_def)
  have b: "cached_serp (sample_services (ok_response (JDict [(''status_code'', JInt 40101)]))
      (ok_response JNull) []) ''pizza'' 5 = Inr []"
    using cached_serp_failure_is_empty
      [of "sample_services (ok_response (JDict [(''status_code'', JInt 40101)])) (ok_response JNull) []"
          "''pizza''" "ok_response (JDict [(''status_code'', JInt 40101)])" 5]
    by (simp add: sample_services_def ok_response_def)
  have c: "cached_serp (sample_services (ok_response (JDict [])) (ok_response JNull) [])
      ''pizza'' 5 = Inr []"
    using cached_serp_failure_is_empty
      [of "sample_services (ok_response (JDict [])) (ok_response JNull) []"
          "''pizza''" "ok_response (JDict [])" 5]
    by (simp add: sample_services_def ok_response_def)
  from a b c show ?thesis by blast
qed

text \<open>
  C9. The success branch is unguarded: with HTTP status 200 and \<open>status_code\<close>
  20000, a body without \<open>tasks\<close>, with an empty \<open>tasks\<close> list, a task without
  \<open>result\<close>, a \<open>null\<close> or empty \<open>result\<close>, or a result without \<open>items\<close> makes
  \<open>cached_serp\<close> raise (\<open>KeyError\<close>, \<open>IndexError\<close> or \<open>TypeError\<close>) instead of
  returning the empty list.
\<close>

theorem cached_serp_success_branch_raises:
  "cached_serp (sample_services (ok_response (JDict [(''status_code'', JInt 20000)]))
      page reply) q depth = Inl KeyError \<and>
   cached_serp (sample_services (ok_response (JDict [(''status_code'', JInt 20000),
      (''tasks'', JList [])])) page reply) q depth = Inl IndexError \<and>
   cached_serp (sample_services (ok_response (JDict [(''status_code'', JInt 20000),
      (''tasks'', JList [JDict []])])) page reply) q depth = Inl KeyError \<and>
   cached_serp (sample_services (ok_response (JDict [(''status_code'', JInt 20000),
      (''tasks'', JList [JDict [(''result'', JNull)]])])) page reply) q depth = Inl TypeError \<and>
   cached_serp (sample_services (ok_response (JDict [(''status_code'', JInt 20000),
      (''tasks'', JList [JDict [(''result'', JList [])]])])) page reply) q depth = Inl IndexError \<and>
   cached_serp (sample_services (ok_response (JDict [(''status_code'', JInt 20000),
      (''tasks'', JList [JDict [(''result'', JList [JDict []])]])])) page reply) q depth
     = Inl KeyError"
  by (simp add: cached_serp_def sample_services_def ok_response_def response_json_def
      serp_items_def)

text \<open>
  C6. What \<open>get_serp_results\<close> returns has at most 5 entries, each a dictionary
  whose \<open>type\<close> is \<open>organic\<close>; and unless it is empty, it is the first five of
  the organic entries of the items list, so the filter comes before the cut.
\<close>

theorem get_serp_results_organic_top5:
  assumes "get_serp_results sv q = Inr rs"
  shows "length rs \<le> 5 \<and>
    (\<forall>r\<in>set rs. \<exists>kvs. r = JDict kvs \<and> map_of kvs ''type'' = Some (JStr ''organic'')) \<and>
    (rs = [] \<or>
     (\<exists>response data results items.
        serp_post sv q = Inr response \<and> response_json response = Inr data \<and>
        serp_items data = Inr results \<and> py_iter results = Inr items \<and>
        rs = take 5 (filter is_organic items)))"
proof -
  from assms consider "rs = []"
    | response data results items kept where
        "serp_post sv q = Inr response" "response_json response = Inr data"
        "serp_items data = Inr results" "py_iter results = Inr items"
        "organic_only items = Inr kept" "rs = py_slice_to kept 5"
    by (auto simp: cached_serp_def get_serp_results_def py_bind_Inr_iff split: if_splits)
  then show ?thesis
  proof cases
    case 1
    then show ?thesis by simp
  next
    case 2
    from organic_only_filter[OF 2(5)] 2(6) have rs: "rs = take 5 (filter is_organic items)"
      by (simp add: py_slice_to_def)
    have len: "length rs \<le> 5"
      by (simp add: rs)
    have "\<forall>r\<in>set rs. is_organic r"
      unfolding rs by (auto dest: in_set_takeD)
    then have org: "\<forall>r\<in>set rs. \<exists>kvs. r = JDict kvs \<and> map_of kvs ''type'' = Some (JStr ''organic'')"
      by (simp only: is_organic_iff)
    from 2(1-4) rs have "\<exists>response data results items.
        serp_post sv q = Inr response \<and> response_json response = Inr data \<and>
        serp_items data = Inr results \<and> py_iter results = Inr items \<and>
        rs = take 5 (filter is_organic items)"
      by blast
    with len org show ?thesis by blast
  qed
qed

lemma mixed_items_results:
  "get_serp_results
     (sample_services (ok_response (serp_body mixed_items)) (ok_response JNull) []) ''pizza'' =
   Inr [serp_item ''organic'' ''https://a.example'',
        serp_item ''organic'' ''https://b.example'',
        serp_item ''organic'' ''https://c.example'',
        serp_item ''organic'' ''https://d.example'',
        serp_item ''organic'' ''https://e.example'']"
  by (simp add: get_serp_results_def cached_serp_def sample_services_def ok_response_def
      serp_body_def response_json_def serp_items_def mixed_items_def serp_item_def
      py_slice_to_def)

theorem get_serp_results_organic_top5_witness:
  "get_serp_results
     (sample_services (ok_response (serp_body mixed_items)) (ok_response JNull) []) ''pizza'' =
   Inr [serp_item ''organic'' ''https://a.example'',
        serp_item ''organic'' ''https://b.example'',
        serp_item ''organic'' ''https://c.example'',
        serp_item ''organic'' ''https://d.example'',
        serp_item ''organic'' ''https://e.example''] \<and>
   length [serp_item ''organic'' ''https://a.example'',
        serp_item ''organic'' ''https://b.example'',
        serp_item ''organic'' ''https://c.example'',
        serp_item ''organic'' ''https://d.example'',
        serp_item ''organic'' ''https://e.example''] \<le> 5"
  using get_serp_results_organic_top5 [OF mixed_items_results] mixed_items_results
  by blast

section \<open>Page text\<close>

lemma page_text_length: "page_text page = Inr s \<Longrightarrow> length s \<le> 4000"
  by (auto simp: page_text_def py_bind_Inr_iff)

lemma extract_text_cases:
  "extract_text sv url = Inr s \<Longrightarrow> s = [] \<or> (\<exists>page. page_text page = Inr s)"
  by (auto simp: extract_text_def py_bind_Inr_iff split: if_splits)

lemma sample_content:
  "cached_content_full (sample_services serp page reply) url =
     (if status_code page = 200 then response_json page else Inr JNull)"
  by (simp add: cached_content_full_def sample_services_def)

text \<open>
  C5. Whatever the content endpoint answers, a string returned by \<open>extract_text\<close>
  has at most 4000 characters. The example is a page of 5000 characters, cut to
  4000.
\<close>

theorem extract_text_length_le_4000: "extract_text sv url = Inr s \<Longrightarrow> length s \<le> 4000"
  using extract_text_cases[of sv url s] page_text_length by auto

lemma long_page:
  "extract_text (sample_services (ok_response JNull)
      (ok_response (page_body [JDict [(''text'', JStr (replicate 5000 (CHR ''a'')))]])) [])
      (JStr ''https://a.example'') = Inr (replicate 4000 (CHR ''a''))"
  by (simp add: extract_text_def sample_content ok_response_def response_json_def page_body_def
      page_text_def)

theorem extract_text_length_le_4000_witness:
  "extract_text (sample_services (ok_response JNull)
      (ok_response (page_body [JDict [(''text'', JStr (replicate 5000 (CHR ''a'')))]])) [])
      (JStr ''https://a.example'') = Inr (replicate 4000 (CHR ''a'')) \<and>
   length (replicate 4000 (CHR ''a'')) \<le> 4000"
  using extract_text_length_le_4000 [OF long_page] long_page by blast

text \<open>
  C2. \<open>extract_text\<close> returns the empty string, and raises nothing, when
  \<open>cached_content_full\<close> gives \<open>None\<close> (as it does for every HTTP status other
  than 200), when the decoded object has a \<open>status_code\<close> other than 20000 or
  none, when \<open>result\<close> is missing or an empty list, when the first result has no
  \<open>items\<close> or an empty list of them, and when the first item has no
  \<open>page_content\<close>.
\<close>

theorem extract_text_empty_on_failure:
  assumes "cached_content_full sv url = Inr data"
    and "data = JNull
       \<or> (\<exists>kvs. data = JDict kvs \<and>
            \<not> py_eq_int (case map_of kvs ''status_code'' of None \<Rightarrow> JNull | Some v \<Rightarrow> v) 20000)
       \<or> (\<exists>kvs. data = JDict kvs \<and>
            (map_of kvs ''result'' = None \<or> map_of kvs ''result'' = Some (JList [])))
       \<or> (\<exists>kvs r0 rs. data = JDict kvs \<and>
            map_of kvs ''result'' = Some (JList (JDict r0 # rs)) \<and>
            (map_of r0 ''items'' = None \<or> map_of r0 ''items'' = Some (JList [])))
       \<or> (\<exists>kvs r0 rs i0 is. data = JDict kvs \<and>
            map_of kvs ''result'' = Some (JList (JDict r0 # rs)) \<and>
            map_of r0 ''items'' = Some (JList (JDict i0 # is)) \<and>
            map_of i0 ''page_content'' = None)"
  shows "extract_text sv url = Inr []"
  using assms
  by (auto simp: extract_text_def map_of_eq_None_iff[symmetric] dest: map_of_SomeD)

theorem extract_text_empty_on_failure_witness:
  "extract_text (sample_services (ok_response JNull) \<lparr>status_code = 404, body = None\<rparr> [])
     (JStr ''https://a.example'') = Inr [] \<and>
   extract_text (sample_services (ok_response JNull)
     (ok_response (JDict [(''status_code'', JInt 40400)])) []) (JStr ''https://a.example'') = Inr [] \<and>
   extract_text (sample_services (ok_response JNull)
     (ok_response (JDict [(''status_code'', JInt 20000)])) []) (JStr ''https://a.example'') = Inr [] \<and>
   extract_text (sample_services (ok_response JNull)
     (ok_response (JDict [(''status_code'', JInt 20000), (''result'', JList [])])) [])
     (JStr ''https://a.example'') = Inr [] \<and>
   extract_text (sample_services (ok_response JNull)
     (ok_response (JDict [(''status_code'', JInt 20000), (''result'', JList [JDict [(''crawl_progress'', JStr ''finished'')]])])) [])
     (JStr ''https://a.example'') = Inr [] \<and>
   extract_text (sample_services (ok_response JNull)
     (ok_response (JDict [(''status_code'', JInt 20000), (''result'', JList [JDict [(''items'', JList [])]])])) [])
     (JStr ''https://a.example'') = Inr [] \<and>
   extract_text (sample_services (ok_response JNull)
     (ok_response (JDict [(''status_code'', JInt 20000),
        (''result'', JList [JDict [(''items'', JList [JDict [(''status_code'', JInt 200)]])]])])) [])
     (JStr ''https://a.example'') = Inr []"
proof (intro conjI)
  show "extract_text (sample_services (ok_response JNull) \<lparr>status_code = 404, body = None\<rparr> [])
     (JStr ''https://a.example'') = Inr []"
    by (rule extract_text_empty_on_failure [where data = JNull]) (simp_all add: sample_content)
  show "extract_text (sample_services (ok_response JNull)
     (ok_response (JDict [(''status_code'', JInt 40400)])) []) (JStr ''https://a.example'') = Inr []"
    by (rule extract_text_empty_on_failure [where data = "JDict [(''status_code'', JInt 40400)]"])
       (simp_all add: sample_content ok_response_def response_json_def)
  show "extract_text (sample_services (ok_response JNull)
     (ok_response (JDict [(''status_code'', JInt 20000)])) []) (JStr ''https://a.example'') = Inr []"
    by (rule extract_text_empty_on_failure [where data = "JDict [(''status_code'', JInt 20000)]"])
       (simp_all add: sample_content ok_response_def response_json_def)
  show "extract_text (sample_services (ok_response JNull)
     (ok_response (JDict [(''status_code'', JInt 20000), (''result'', JList [])])) [])
     (JStr ''https://a.example'') = Inr []"
    by (rule extract_text_empty_on_failure [where data = "JDict [(''status_code'', JInt 20000), (''result'', JList [])]"])
       (simp_all add: sample_content ok_response_def response_json_def)
  show "extract_text (sample_services (ok_response JNull)
     (ok_response (JDict [(''status_code'', JInt 20000), (''result'', JList [JDict [(''crawl_progress'', JStr ''finished'')]])])) [])
     (JStr ''https://a.example'') = Inr []"
    by (rule extract_text_empty_on_failure [where data = "JDict [(''status_code'', JInt 20000), (''result'', JList [JDict [(''crawl_progress'', JStr ''finished'')]])]"])
       (simp_all add: sample_content ok_response_def response_json_def)
  show "extract_text (sample_services (ok_response JNull)
     (ok_response (JDict [(''status_code'', JInt 20000), (''result'', JList [JDict [(''items'', JList [])]])])) [])
     (JStr ''https://a.example'') = Inr []"
    by (rule extract_text_empty_on_failure [where data = "JDict [(''status_code'', JInt 20000), (''result'', JList [JDict [(''items'', JList [])]])]"])
       (simp_all add: sample_content ok_response_def response_json_def)
  show "extract_text (sample_services (ok_response JNull)
     (ok_response (JDict [(''status_code'', JInt 20000),
        (''result'', JList [JDict [(''items'', JList [JDict [(''status_code'', JInt 200)]])]])])) [])
     (JStr ''https://a.example'') = Inr []"
    by (rule extract_text_empty_on_failure [where data = "JDict [(''status_code'', JInt 20000),
        (''result'', JList [JDict [(''items'', JList [JDict [(''status_code'', JInt 200)]])]])]"])
       (simp_all add: sample_content ok_response_def response_json_def)
qed

section \<open>Generated posts\<close>

text \<open>
  The split, read as equations: an empty text is one empty piece; where the
  pattern does not match, the character joins the first piece of the rest; where
  it matches, a piece ends and the split goes on behind the match.
\<close>

lemma re_split_from_drop: "re_split_from m n s = re_split_from m 0 (drop n s)"
proof (induction s arbitrary: n)
  case Nil
  then show ?case by simp
next
  case (Cons c cs)
  show ?case
  proof (cases n)
    case 0
    then show ?thesis by simp
  next
    case (Suc k)
    with Cons.IH [of k] show ?thesis by simp
  qed
qed

lemma re_split_from_nonempty: "re_split_from m n s \<noteq> []"
  by (induction m n s rule: re_split_from.induct) (auto split: option.splits list.splits)

lemma re_split_Nil: "re_split m [] = [[]]"
  by (simp add: re_split_def)

lemma re_split_no_match:
  "m (c # cs) = None \<Longrightarrow>
   re_split m (c # cs) = (c # hd (re_split m cs)) # tl (re_split m cs)"
  using re_split_from_nonempty [of m 0 cs]
  by (simp add: re_split_def split: list.splits)

lemma re_split_match:
  "m (c # cs) = Some k \<Longrightarrow> 0 < k \<Longrightarrow>
   re_split m (c # cs) = [] # re_split m (drop k (c # cs))"
  using re_split_from_drop [of m "k - 1" cs]
  by (cases k) (simp_all add: re_split_def)

text \<open>
  The two matchers accept exactly the texts their patterns describe, and report
  the length of the match.
\<close>

lemma digit_not_space: "is_digit c \<Longrightarrow> \<not> is_space c"
  by (auto simp: is_digit_def is_space_def)

lemma takeWhile_run:
  "list_all P xs \<Longrightarrow> \<not> P y \<Longrightarrow> takeWhile P (xs @ y # ys) = xs"
  by (induction xs) auto

lemma drop_numeral_plus_Cons:
  "drop (numeral k + n) (x # xs) = drop (pred_numeral k + n) xs"
  by (simp add: numeral_eq_Suc)

lemma drop_one_plus_Cons: "drop (1 + n) (x # xs) = drop n xs"
  by simp

lemma post_marker_iff:
  "post_marker s = Some n \<longleftrightarrow>
     (\<exists>ws ds c rest. s = ''POST'' @ ws @ ds @ c # rest \<and> list_all is_space ws \<and>
        ds \<noteq> [] \<and> list_all is_digit ds \<and> (c = CHR '':'' \<or> c = CHR ''-'') \<and>
        n = 4 + length ws + length ds + 1)"
  (is "?L \<longleftrightarrow> ?R")
proof
  assume L: ?L
  define ws where "ws = takeWhile is_space (drop 4 s)"
  define ds where "ds = takeWhile is_digit (drop (4 + length ws) s)"
  define k where "k = 4 + length ws + length ds"
  from L have p: "take 4 s = ''POST''" and d: "ds \<noteq> []"
    and n: "n = k + 1"
    and c: "(case drop k s of [] \<Rightarrow> False | c # cs \<Rightarrow> c = CHR '':'' \<or> c = CHR ''-'')"
    by (auto simp: post_marker_def Let_def ws_def ds_def k_def split: if_splits)
  from c obtain c rest where r: "drop k s = c # rest" and cc: "c = CHR '':'' \<or> c = CHR ''-''"
    by (auto split: list.splits)
  have r1: "drop (4 + length ws) s = dropWhile is_space (drop 4 s)"
    by (simp add: ws_def dropWhile_eq_drop add.commute)
  have r2: "drop k s = dropWhile is_digit (drop (4 + length ws) s)"
    by (simp add: k_def ds_def dropWhile_eq_drop add.commute[of _ "length (takeWhile _ _)"])
  have "s = take 4 s @ drop 4 s" by simp
  moreover have "drop 4 s = ws @ drop (4 + length ws) s"
    unfolding r1 by (simp add: ws_def)
  moreover have "drop (4 + length ws) s = ds @ drop k s"
    unfolding r2 by (simp add: ds_def)
  ultimately have s: "s = ''POST'' @ ws @ ds @ c # rest"
    using p r by metis
  have "list_all is_space ws" "list_all is_digit ds"
    by (auto simp: ws_def ds_def list_all_iff dest: set_takeWhileD)
  with s d cc n show ?R
    unfolding k_def by blast
next
  assume ?R
  then obtain ws ds c rest where s: "s = ''POST'' @ ws @ ds @ c # rest"
    and ws: "list_all is_space ws" and d: "ds \<noteq> []" and ds: "list_all is_digit ds"
    and c: "c = CHR '':'' \<or> c = CHR ''-''" and n: "n = 4 + length ws + length ds + 1"
    by blast
  from d obtain d0 ds' where dd: "ds = d0 # ds'" by (cases ds) auto
  with ds have "\<not> is_space d0" by (simp add: digit_not_space)
  then have w: "takeWhile is_space (drop 4 s) = ws"
    using ws by (simp add: s dd takeWhile_run)
  from c have "\<not> is_digit c" by (auto simp: is_digit_def)
  then have t: "takeWhile is_digit (drop (4 + length ws) s) = ds"
    using ds by (simp add: s takeWhile_run drop_numeral_plus_Cons drop_one_plus_Cons)
  have "drop (4 + length ws + length ds) s = c # rest"
    by (simp add: s drop_numeral_plus_Cons drop_one_plus_Cons add.assoc)
  with w t d c n show ?L
    by (simp add: post_marker_def Let_def s)
qed

lemma spec_post_marker_iff:
  "spec_post_marker s = Some n \<longleftrightarrow>
     (\<exists>ds c rest. s = ''POST '' @ ds @ c # rest \<and>
        ds \<noteq> [] \<and> list_all is_digit ds \<and> (c = CHR '':'' \<or> c = CHR ''-'') \<and>
        n = 5 + length ds + 1)"
  (is "?L \<longleftrightarrow> ?R")
proof
  assume L: ?L
  define ds where "ds = takeWhile is_digit (drop 5 s)"
  define k where "k = 5 + length ds"
  from L have p: "take 5 s = ''POST ''" and d: "ds \<noteq> []"
    and n: "n = k + 1"
    and c: "(case drop k s of [] \<Rightarrow> False | c # cs \<Rightarrow> c = CHR '':'' \<or> c = CHR ''-'')"
    by (auto simp: spec_post_marker_def Let_def ds_def k_def split: if_splits)
  from c obtain c rest where r: "drop k s = c # rest" and cc: "c = CHR '':'' \<or> c = CHR ''-''"
    by (auto split: list.splits)
  have r2: "drop k s = dropWhile is_digit (drop 5 s)"
    by (simp add: k_def ds_def dropWhile_eq_drop add.commute[of _ "length (takeWhile _ _)"])
  have "s = take 5 s @ drop 5 s" by simp
  moreover have "drop 5 s = ds @ drop k s"
    unfolding r2 by (simp add: ds_def)
  ultimately have s: "s = ''POST '' @ ds @ c # rest"
    using p r by metis
  have "list_all is_digit ds"
    by (auto simp: ds_def list_all_iff dest: set_takeWhileD)
  with s d cc n show ?R
    unfolding k_def by blast
next
  assume ?R
  then obtain ds c rest where s: "s = ''POST '' @ ds @ c # rest"
    and d: "ds \<noteq> []" and ds: "list_all is_digit ds"
    and c: "c = CHR '':'' \<or> c = CHR ''-''" and n: "n = 5 + length ds + 1"
    by blast
  from c have "\<not> is_digit c" by (auto simp: is_digit_def)
  then have t: "takeWhile is_digit (drop 5 s) = ds"
    using ds by (simp add: s takeWhile_run)
  have "drop (5 + length ds) s = c # rest"
    by (simp add: s drop_numeral_plus_Cons drop_one_plus_Cons)
  with t d c n show ?L
    by (simp add: spec_post_marker_def Let_def s)
qed

text \<open>Every match of the pattern as the specification words it is a match of the
  pattern of the code, of the same length; the converse fails, as \<open>POST1:\<close>
  shows.\<close>

lemma spec_marker_is_post_marker:
  assumes "spec_post_marker s = Some n"
  shows "post_marker s = Some n"
proof -
  from assms obtain ds c rest where s: "s = ''POST '' @ ds @ c # rest"
    and d: "ds \<noteq> []" and ds: "list_all is_digit ds"
    and c: "c = CHR '':'' \<or> c = CHR ''-''" and n: "n = 5 + length ds + 1"
    unfolding spec_post_marker_iff by blast
  have "s = ''POST'' @ '' '' @ ds @ c # rest \<and> list_all is_space '' ''"
    by (simp add: s is_space_def)
  with d ds c n show ?thesis
    unfolding post_marker_iff
    by (intro exI[of _ "'' ''"] exI[of _ ds] exI[of _ c] exI[of _ rest]) simp
qed

text \<open>The two comprehensions of the program, as a filter over a map.\<close>

lemma comprehension_filter_map:
  "[f x. x \<leftarrow> xs, f x \<noteq> []] = filter (\<lambda>y. y \<noteq> []) (map f xs)"
  by (induction xs) simp_all

lemma fallback_posts_eq:
  "fallback_posts content = filter (\<lambda>p. p \<noteq> []) (map strip (re_split post_marker content))"
  by (simp add: fallback_posts_def comprehension_filter_map)

lemma generate_posts_decoded:
  assumes "chat_create sv
      \<lparr>model = ''gpt-4.1'', prompt = posts_prompt company trade topic notes summary n,
       max_tokens = 2000, temperature = 7 / 10\<rparr> = Inr content"
    and "json_loads sv content = Some (JDict kvs)"
  shows "generate_posts sv company trade topic notes summary n =
     Inr (case map_of kvs ''posts'' of None \<Rightarrow> JList [] | Some v \<Rightarrow> v)"
  using assms by (simp add: generate_posts_def parse_posts_def)

lemma generate_posts_undecoded:
  assumes "chat_create sv
      \<lparr>model = ''gpt-4.1'', prompt = posts_prompt company trade topic notes summary n,
       max_tokens = 2000, temperature = 7 / 10\<rparr> = Inr content"
    and "json_loads sv content = None"
  shows "generate_posts sv company trade topic notes summary n =
     Inr (JList (map JStr (fallback_posts content)))"
  using assms by (simp add: generate_posts_def parse_posts_def)

lemma hello_world: "fallback_posts ''POST 1: Hello POST 2: World'' = [''Hello'', ''World'']"
  by code_simp

lemma post1_hello: "fallback_posts ''POST1:Hello'' = [''Hello'']"
  by code_simp

lemma spec_post1_hello: "spec_fallback_posts ''POST1:Hello'' = [''POST1:Hello'']"
  by code_simp

text \<open>Any whitespace may stand between \<open>POST\<close> and the digits, a tab for one.\<close>

lemma tab_split: "fallback_posts (''POST'' @ [CHR 0x09] @ ''2- Ciao'') = [''Ciao'']"
  by code_simp

lemma spec_tab_split: "spec_fallback_posts (''POST'' @ [CHR 0x09] @ ''2- Ciao'') = [''POST'' @ [CHR 0x09] @ ''2- Ciao'']"
  by code_simp

lemma nonjson: \<open>fallback_posts ''{"post": "POST 1: a"}'' = [''{"post": "'', ''a"}'']\<close>
  by code_simp

text \<open>
  C4. When the model's reply decodes to the JSON object \<open>{"posts": ["a","b"]}\<close>,
  \<open>generate_posts\<close> returns exactly the list \<open>["a","b"]\<close>.
\<close>

theorem generate_posts_wellformed_json:
  assumes "chat_create sv
      \<lparr>model = ''gpt-4.1'', prompt = posts_prompt company trade topic notes summary n,
       max_tokens = 2000, temperature = 7 / 10\<rparr> = Inr content"
    and "json_loads sv content = Some (JDict [(''posts'', JList [JStr ''a'', JStr ''b''])])"
  shows "generate_posts sv company trade topic notes summary n = Inr (JList [JStr ''a'', JStr ''b''])"
  using generate_posts_decoded [OF assms] by simp

theorem generate_posts_wellformed_json_witness:
  \<open>generate_posts (sample_services (ok_response JNull) (ok_response JNull) ''{"posts": ["a","b"]}'')
     ''Bar Roma'' ''bar'' ''caffe'' [] ''sintesi'' 2 = Inr (JList [JStr ''a'', JStr ''b''])\<close>
  by (rule generate_posts_wellformed_json [where content = \<open>''{"posts": ["a","b"]}''\<close>])
     (simp_all add: sample_services_def sample_loads_def)

text \<open>
  C10. When the reply decodes to a JSON object without a \<open>posts\<close> key,
  \<open>generate_posts\<close> returns the empty list, the default of
  \<^verbatim>\<open>data.get("posts", [])\<close>; the fallback split is not taken, although on the
  reply of the example it would give two fragments.
\<close>

theorem generate_posts_missing_posts_key:
  assumes "chat_create sv
      \<lparr>model = ''gpt-4.1'', prompt = posts_prompt company trade topic notes summary n,
       max_tokens = 2000, temperature = 7 / 10\<rparr> = Inr content"
    and "json_loads sv content = Some (JDict kvs)"
    and "map_of kvs ''posts'' = None"
  shows "generate_posts sv company trade topic notes summary n = Inr (JList [])"
  using generate_posts_decoded [OF assms(1,2)] assms(3) by simp

theorem generate_posts_missing_posts_key_witness:
  \<open>generate_posts (sample_services (ok_response JNull) (ok_response JNull) ''{"post": "POST 1: a"}'')
     ''Bar Roma'' ''bar'' ''caffe'' [] ''sintesi'' 2 = Inr (JList []) \<and>
   fallback_posts ''{"post": "POST 1: a"}'' = [''{"post": "'', ''a"}'']\<close>
proof
  show \<open>generate_posts (sample_services (ok_response JNull) (ok_response JNull) ''{"post": "POST 1: a"}'')
     ''Bar Roma'' ''bar'' ''caffe'' [] ''sintesi'' 2 = Inr (JList [])\<close>
    by (rule generate_posts_missing_posts_key [where content = \<open>''{"post": "POST 1: a"}''\<close>
          and kvs = "[(''post'', JStr ''POST 1: a'')]"])
       (simp_all add: sample_services_def sample_loads_def)
  show \<open>fallback_posts ''{"post": "POST 1: a"}'' = [''{"post": "'', ''a"}'']\<close>
    by (rule nonjson)
qed

text \<open>
  C3, as stated, fails: on the reply \<open>POST1:Hello\<close>, which is not JSON and
  holds no text of the form \<open>POST <digits>:\<close> with its space,
  \<open>generate_posts\<close> still splits and returns \<open>["Hello"]\<close>, where a split on
  the pattern as worded leaves the reply whole.
\<close>

theorem generate_posts_splits_without_space:
  "generate_posts (sample_services (ok_response JNull) (ok_response JNull) ''POST1:Hello'')
     ''Bar Roma'' ''bar'' ''caffe'' [] ''sintesi'' 2 = Inr (JList [JStr ''Hello'']) \<and>
   spec_fallback_posts ''POST1:Hello'' = [''POST1:Hello'']"
proof
  have "generate_posts (sample_services (ok_response JNull) (ok_response JNull) ''POST1:Hello'')
     ''Bar Roma'' ''bar'' ''caffe'' [] ''sintesi'' 2 = Inr (JList (map JStr (fallback_posts ''POST1:Hello'')))"
    by (rule generate_posts_undecoded) (simp_all add: sample_services_def sample_loads_def)
  then show "generate_posts (sample_services (ok_response JNull) (ok_response JNull) ''POST1:Hello'')
     ''Bar Roma'' ''bar'' ''caffe'' [] ''sintesi'' 2 = Inr (JList [JStr ''Hello''])"
    by (simp add: post1_hello)
  show "spec_fallback_posts ''POST1:Hello'' = [''POST1:Hello'']"
    by (rule spec_post1_hello)
qed


text \<open>
  C3, amended. When the reply is not JSON, \<open>generate_posts\<close> splits it with
  \<^verbatim>\<open>re.split\<close> on the case-sensitive marker made of \<open>POST\<close>, any run of
  whitespace (possibly empty), one or more digits, and \<open>:\<close> or \<open>-\<close>, and returns
  the stripped fragments that are not empty; on \<open>POST 1: Hello POST 2: World\<close> it
  returns exactly \<open>["Hello", "World"]\<close>.
\<close>

theorem generate_posts_fallback_split:
  assumes "chat_create sv
      \<lparr>model = ''gpt-4.1'', prompt = posts_prompt company trade topic notes summary n,
       max_tokens = 2000, temperature = 7 / 10\<rparr> = Inr content"
    and "json_loads sv content = None"
  shows "generate_posts sv company trade topic notes summary n =
       Inr (JList (map JStr (filter (\<lambda>p. p \<noteq> []) (map strip (re_split post_marker content))))) \<and>
     (content = ''POST 1: Hello POST 2: World'' \<longrightarrow>
        generate_posts sv company trade topic notes summary n = Inr (JList [JStr ''Hello'', JStr ''World''])) \<and>
     (\<forall>x k. post_marker x = Some k \<longleftrightarrow>
        (\<exists>ws ds c rest. x = ''POST'' @ ws @ ds @ c # rest \<and> list_all is_space ws \<and>
           ds \<noteq> [] \<and> list_all is_digit ds \<and> (c = CHR '':'' \<or> c = CHR ''-'') \<and>
           k = 4 + length ws + length ds + 1))"
proof (intro conjI allI impI)
  show "generate_posts sv company trade topic notes summary n =
       Inr (JList (map JStr (filter (\<lambda>p. p \<noteq> []) (map strip (re_split post_marker content)))))"
    using generate_posts_undecoded [OF assms] by (simp only: fallback_posts_eq)
  show "generate_posts sv company trade topic notes summary n = Inr (JList [JStr ''Hello'', JStr ''World''])"
    if "content = ''POST 1: Hello POST 2: World''"
    using generate_posts_undecoded [OF assms] by (simp add: that hello_world)
  show "post_marker x = Some k \<longleftrightarrow>
        (\<exists>ws ds c rest. x = ''POST'' @ ws @ ds @ c # rest \<and> list_all is_space ws \<and>
           ds \<noteq> [] \<and> list_all is_digit ds \<and> (c = CHR '':'' \<or> c = CHR ''-'') \<and>
           k = 4 + length ws + length ds + 1)" for x k
    by (rule post_marker_iff)
qed

theorem generate_posts_fallback_split_witness:
  "generate_posts
     (sample_services (ok_response JNull) (ok_response JNull) ''POST 1: Hello POST 2: World'')
     ''Bar Roma'' ''bar'' ''caffe'' [] ''sintesi'' 2 = Inr (JList [JStr ''Hello'', JStr ''World''])"
proof -
  have "chat_create (sample_services (ok_response JNull) (ok_response JNull) ''POST 1: Hello POST 2: World'')
      \<lparr>model = ''gpt-4.1'', prompt = posts_prompt ''Bar Roma'' ''bar'' ''caffe'' [] ''sintesi'' 2,
       max_tokens = 2000, temperature = 7 / 10\<rparr> = Inr ''POST 1: Hello POST 2: World''"
    by (simp add: sample_services_def)
  moreover have "json_loads (sample_services (ok_response JNull) (ok_response JNull) ''POST 1: Hello POST 2: World'')
      ''POST 1: Hello POST 2: World'' = None"
    by (simp add: sample_services_def sample_loads_def)
  ultimately show ?thesis
    using generate_posts_fallback_split by blast
qed

section \<open>The plan\<close>

lemma split_on_no_sep: "p \<in> set (split_on sep s) \<Longrightarrow> sep \<notin> set p"
  by (induction s arbitrary: p) (auto split: if_splits list.splits)

lemma last_dropWhile_keep: "dropWhile P xs \<noteq> [] \<Longrightarrow> last (dropWhile P xs) = last xs"
  by (induction xs) (auto split: if_splits)

lemma strip_ends:
  assumes "strip s \<noteq> []"
  shows "\<not> is_space (hd (strip s)) \<and> \<not> is_space (last (strip s))"
proof -
  define u where "u = dropWhile is_space s"
  define v where "v = dropWhile is_space (rev u)"
  have sv: "strip s = rev v" by (simp add: strip_def u_def v_def)
  with assms have v: "v \<noteq> []" by simp
  then have "\<not> is_space (hd v)" unfolding v_def by (rule hd_dropWhile)
  then have l: "\<not> is_space (last (strip s))" using v by (simp add: sv last_rev)
  from v have u: "u \<noteq> []" by (auto simp: v_def)
  then have "\<not> is_space (hd u)" unfolding u_def by (rule hd_dropWhile)
  moreover have "last v = last (rev u)" using v unfolding v_def by (rule last_dropWhile_keep)
  ultimately have "\<not> is_space (hd (strip s))" using u v by (simp add: sv hd_rev last_rev)
  with l show ?thesis by simp
qed

lemma strip_subset: "set (strip s) \<subseteq> set s"
proof
  fix c assume "c \<in> set (strip s)"
  then have "c \<in> set (dropWhile is_space (rev (dropWhile is_space s)))"
    by (simp add: strip_def)
  then have "c \<in> set (rev (dropWhile is_space s))"
    by (rule set_dropWhileD)
  then have "c \<in> set (dropWhile is_space s)"
    by simp
  then show "c \<in> set s"
    by (rule set_dropWhileD)
qed

lemma strip_idem: "strip (strip s) = strip s"
proof (cases "strip s = []")
  case True
  have "strip [] = []" by (simp add: strip_def)
  with True show ?thesis by simp
next
  case False
  from strip_ends [OF False] have h: "\<not> is_space (hd (strip s))" and l: "\<not> is_space (last (strip s))"
    by simp_all
  from False h have 1: "dropWhile is_space (strip s) = strip s"
    by (cases "strip s") auto
  from False l have 2: "dropWhile is_space (rev (strip s)) = rev (strip s)"
    by (cases "rev (strip s)") (auto simp: last_rev[symmetric] hd_rev)
  show ?thesis
    unfolding strip_def [of "strip s"] 1 2 by simp
qed


lemma parse_topics_eq:
  "parse_topics inp = filter (\<lambda>t. t \<noteq> []) (map strip (split_on (CHR 0x0A) inp))"
  by (simp add: parse_topics_def comprehension_filter_map)

lemma parse_topics_member:
  assumes "t \<in> set (parse_topics inp)"
  shows "t \<noteq> [] \<and> \<not> is_space (hd t) \<and> \<not> is_space (last t) \<and> CHR 0x0A \<notin> set t"
proof -
  from assms obtain line where line: "line \<in> set (split_on (CHR 0x0A) inp)"
    and t: "t = strip line" and ne: "t \<noteq> []"
    by (auto simp: parse_topics_eq)
  from line have "CHR 0x0A \<notin> set line" by (rule split_on_no_sep)
  with strip_subset [of line] have "CHR 0x0A \<notin> set t" by (auto simp: t)
  with strip_ends [of line] ne show ?thesis by (simp add: t)
qed


lemma py_strs_Inr: "py_strs xs = Inr ss \<Longrightarrow> xs = map JStr ss"
  by (induction xs arbitrary: ss rule: py_strs.induct) (auto simp: py_bind_Inr_iff)

lemma py_join_Inr:
  "py_join sep xs = Inr joined \<Longrightarrow> \<exists>ss. xs = map JStr ss \<and> joined = join sep ss"
  by (auto simp: py_join_def py_bind_Inr_iff dest: py_strs_Inr)

lemma append_rows_Inr:
  "append_rows topic urls ps rows = Inr out \<Longrightarrow>
   \<exists>contents. map py_strip ps = map Inr contents \<and>
     (ps = [] \<and> out = rows \<or>
      (\<exists>joined. py_join '', '' urls = Inr joined \<and>
         out = rows @ map (new_row topic joined) contents))"
proof (induction ps arbitrary: rows)
  case Nil
  then show ?case by simp
next
  case (Cons p ps)
  from Cons.prems obtain joined content where j: "py_join '', '' urls = Inr joined"
    and c: "py_strip p = Inr content"
    and rest: "append_rows topic urls ps (rows @ [new_row topic joined content]) = Inr out"
    by (auto simp: py_bind_Inr_iff)
  from Cons.IH [OF rest] obtain contents where m: "map py_strip ps = map Inr contents"
    and o: "ps = [] \<and> out = rows @ [new_row topic joined content] \<or>
      (\<exists>joined'. py_join '', '' urls = Inr joined' \<and>
         out = (rows @ [new_row topic joined content]) @ map (new_row topic joined') contents)"
    by blast
  from m o j have "out = rows @ map (new_row topic joined) (content # contents)"
    by auto
  with c m j show ?case
    by (intro exI [of _ "content # contents"]) auto
qed

lemma gather_sources_Inr:
  "gather_sources sv rs acc urls = Inr (acc', urls') \<Longrightarrow>
   \<exists>us ts. map (\<lambda>r. py_getitem r ''url'') rs = map Inr us \<and>
     map (extract_text sv) us = map Inr ts \<and>
     urls' = urls @ us \<and> acc' = acc @ concat (map (\<lambda>t. t @ nl) ts)"
proof (induction rs arbitrary: acc urls)
  case Nil
  then show ?case by simp
next
  case (Cons r rs)
  from Cons.prems obtain u t where u: "py_getitem r ''url'' = Inr u"
    and t: "extract_text sv u = Inr t"
    and rest: "gather_sources sv rs (acc @ t @ nl) (urls @ [u]) = Inr (acc', urls')"
    by (auto simp: py_bind_Inr_iff)
  from Cons.IH [OF rest] obtain us ts where
    "map (\<lambda>r. py_getitem r ''url'') rs = map Inr us"
    "map (extract_text sv) us = map Inr ts"
    "urls' = (urls @ [u]) @ us" "acc' = (acc @ t @ nl) @ concat (map (\<lambda>t. t @ nl) ts)"
    by blast
  with u t show ?case
    by (intro exI [of _ "u # us"] exI [of _ "t # ts"]) simp
qed

lemma plan_topic_Inr:
  assumes "plan_topic sv f topic rows = Inr out"
  shows "\<exists>serp sources_text urls summary posts ps contents.
     get_serp_results sv (build_query f topic) = Inr serp \<and>
     map (\<lambda>r. py_getitem r ''url'') serp = map Inr urls \<and>
     gather_sources sv serp [] [] = Inr (sources_text, urls) \<and>
     summarize_sources sv topic sources_text = Inr summary \<and>
     generate_posts sv (business f) (sector f) topic (brief f) summary (n_posts f) = Inr posts \<and>
     py_iter posts = Inr ps \<and>
     map py_strip ps = map Inr contents \<and>
     (ps = [] \<and> out = rows \<or>
      (\<exists>us. urls = map JStr us \<and>
         out = rows @ map (new_row topic (join '', '' us)) contents))"
proof -
  from assms obtain serp sources_text urls summary posts ps where
    1: "get_serp_results sv (build_query f topic) = Inr serp"
    and 2: "gather_sources sv serp [] [] = Inr (sources_text, urls)"
    and 3: "summarize_sources sv topic sources_text = Inr summary"
    and 4: "generate_posts sv (business f) (sector f) topic (brief f) summary (n_posts f) = Inr posts"
    and 5: "py_iter posts = Inr ps"
    and 6: "append_rows topic urls ps rows = Inr out"
    by (auto simp: plan_topic_def py_bind_Inr_iff)
  from gather_sources_Inr [OF 2] have 7: "map (\<lambda>r. py_getitem r ''url'') serp = map Inr urls"
    by auto
  from append_rows_Inr [OF 6] obtain contents where 8: "map py_strip ps = map Inr contents"
    and 9: "ps = [] \<and> out = rows \<or>
      (\<exists>joined. py_join '', '' urls = Inr joined \<and>
         out = rows @ map (new_row topic joined) contents)"
    by blast
  from 9 have "ps = [] \<and> out = rows \<or>
      (\<exists>us. urls = map JStr us \<and>
         out = rows @ map (new_row topic (join '', '' us)) contents)"
    by (auto dest: py_join_Inr)
  with 1 2 3 4 5 7 8 show ?thesis by blast
qed

lemma append_rows_prefix:
  "append_rows topic urls ps rows = Inr out \<longleftrightarrow>
   (\<exists>new. append_rows topic urls ps [] = Inr new \<and> out = rows @ new)"
proof (induction ps arbitrary: rows out)
  case Nil
  then show ?case by auto
next
  case (Cons p ps)
  show ?case
  proof (cases "py_join '', '' urls")
    case (Inl e)
    then show ?thesis by simp
  next
    case j: (Inr joined)
    show ?thesis
    proof (cases "py_strip p")
      case (Inl e)
      with j show ?thesis by simp
    next
      case c: (Inr content)
      have "append_rows topic urls (p # ps) rows = Inr out \<longleftrightarrow>
          (\<exists>new. append_rows topic urls ps [] = Inr new \<and>
             out = (rows @ [new_row topic joined content]) @ new)"
        using Cons.IH [of "rows @ [new_row topic joined content]" out] j c by simp
      moreover have "(\<exists>new. append_rows topic urls (p # ps) [] = Inr new \<and> out = rows @ new) \<longleftrightarrow>
          (\<exists>new'. append_rows topic urls ps [] = Inr new' \<and>
             out = rows @ [new_row topic joined content] @ new')"
        using j c by (simp add: Cons.IH [of "[new_row topic joined content]"]) blast
      ultimately show ?thesis by simp
    qed
  qed
qed

lemma plan_topic_prefix:
  "plan_topic sv f topic rows = Inr out \<longleftrightarrow>
   (\<exists>new. plan_topic sv f topic [] = Inr new \<and> out = rows @ new)"
  (is "?L \<longleftrightarrow> ?R")
proof
  assume ?L
  then obtain serp sources_text urls summary posts ps where
    1: "get_serp_results sv (build_query f topic) = Inr serp"
    and 2: "gather_sources sv serp [] [] = Inr (sources_text, urls)"
    and 3: "summarize_sources sv topic sources_text = Inr summary"
    and 4: "generate_posts sv (business f) (sector f) topic (brief f) summary (n_posts f) = Inr posts"
    and 5: "py_iter posts = Inr ps"
    and 6: "append_rows topic urls ps rows = Inr out"
    by (auto simp: plan_topic_def py_bind_Inr_iff)
  from 6 obtain new where n: "append_rows topic urls ps [] = Inr new" and o: "out = rows @ new"
    unfolding append_rows_prefix [of topic urls ps rows] by blast
  from 1 2 3 4 5 n have "plan_topic sv f topic [] = Inr new"
    by (simp add: plan_topic_def)
  with o show ?R by blast
next
  assume ?R
  then obtain new where p: "plan_topic sv f topic [] = Inr new" and o: "out = rows @ new"
    by blast
  from p obtain serp sources_text urls summary posts ps where
    1: "get_serp_results sv (build_query f topic) = Inr serp"
    and 2: "gather_sources sv serp [] [] = Inr (sources_text, urls)"
    and 3: "summarize_sources sv topic sources_text = Inr summary"
    and 4: "generate_posts sv (business f) (sector f) topic (brief f) summary (n_posts f) = Inr posts"
    and 5: "py_iter posts = Inr ps"
    and 6: "append_rows topic urls ps [] = Inr new"
    by (auto simp: plan_topic_def py_bind_Inr_iff)
  from 6 o have "append_rows topic urls ps rows = Inr out"
    unfolding append_rows_prefix [of topic urls ps rows] by blast
  with 1 2 3 4 5 show ?L
    by (simp add: plan_topic_def)
qed

lemma plan_topics_Inr:
  "plan_topics sv f topics rows = Inr out \<Longrightarrow>
   \<exists>per_topic. list_all2 (\<lambda>topic new. plan_topic sv f topic [] = Inr new) topics per_topic \<and>
     out = rows @ concat per_topic"
proof (induction topics arbitrary: rows)
  case Nil
  then show ?case by simp
next
  case (Cons topic topics)
  from Cons.prems obtain mid where a: "plan_topic sv f topic rows = Inr mid"
    and b: "plan_topics sv f topics mid = Inr out"
    by (auto simp: py_bind_Inr_iff)
  from a obtain new where n: "plan_topic sv f topic [] = Inr new" and m: "mid = rows @ new"
    unfolding plan_topic_prefix [of sv f topic rows] by blast
  from Cons.IH [OF b] obtain per_topic where
    "list_all2 (\<lambda>topic new. plan_topic sv f topic [] = Inr new) topics per_topic"
    "out = mid @ concat per_topic"
    by blast
  with n m show ?case
    by (intro exI [of _ "new # per_topic"]) simp
qed


lemma sample_topics: "parse_topics (topic_input sample_form) = [sample_topic]"
  by (simp add: parse_topics_def sample_form_def sample_topic_def strip_def is_space_def)

lemma sample_extract:
  "extract_text sample_world u = Inr ''Tostatura lenta ogni giorno ''"
  by (simp add: extract_text_def sample_world_def sample_content sample_page_def
      ok_response_def response_json_def page_body_def page_text_def)

lemma sample_serp:
  "get_serp_results sample_world q =
   Inr [serp_item ''organic'' ''https://a.example'',
        serp_item ''organic'' ''https://b.example'',
        serp_item ''organic'' ''https://c.example'',
        serp_item ''organic'' ''https://d.example'',
        serp_item ''organic'' ''https://e.example'']"
  by (simp add: get_serp_results_def cached_serp_def sample_world_def sample_services_def
      ok_response_def serp_body_def response_json_def serp_items_def mixed_items_def
      serp_item_def py_slice_to_def)

lemma sample_posts:
  "generate_posts sample_world company trade topic notes summary n = Inr (JList [JStr ''a'', JStr ''b''])"
  by (simp add: generate_posts_def parse_posts_def sample_world_def sample_services_def
      sample_loads_def)

lemma sample_summary: \<open>summarize_sources sample_world topic sources = Inr ''{"posts": ["a","b"]}''\<close>
  by (simp add: summarize_sources_def sample_world_def sample_services_def)

lemma sample_run:
  "run_planner sample_world sample_form =
   Inr [new_row sample_topic
          ''https://a.example, https://b.example, https://c.example, https://d.example, https://e.example''
          ''a'',
        new_row sample_topic
          ''https://a.example, https://b.example, https://c.example, https://d.example, https://e.example''
          ''b'']"
  by (simp add: run_planner_def sample_topics plan_topic_def sample_serp sample_extract
      sample_summary sample_posts serp_item_def py_join_def strip_def is_space_def)


lemma plan_topic_row_fields:
  assumes "plan_topic sv f topic [] = Inr new" and "r \<in> set new"
  shows "data_pubblicazione r = [] \<and> immagine r = [] \<and> argomento r = topic"
proof -
  from plan_topic_Inr [OF assms(1)] obtain ps contents urls where
    "ps = [] \<and> new = [] \<or>
      (\<exists>us. urls = map JStr us \<and> new = [] @ map (new_row topic (join '', '' us)) contents)"
    by blast
  with assms(2) show ?thesis
    by (auto simp: new_row_def)
qed

lemma run_planner_Inr:
  assumes "run_planner sv f = Inr rows"
  shows "\<exists>per_topic.
     list_all2 (\<lambda>topic new. plan_topic sv f topic [] = Inr new)
       (parse_topics (topic_input f)) per_topic \<and>
     rows = concat per_topic"
proof -
  from assms have "plan_topics sv f (parse_topics (topic_input f)) [] = Inr rows"
    by (simp add: run_planner_def Let_def split: if_splits)
  from plan_topics_Inr [OF this] show ?thesis by simp
qed

lemma run_planner_row:
  assumes "run_planner sv f = Inr rows" and "r \<in> set rows"
  shows "data_pubblicazione r = [] \<and> immagine r = [] \<and>
     argomento r \<in> set (parse_topics (topic_input f))"
proof -
  from run_planner_Inr [OF assms(1)] obtain per_topic where
    l: "list_all2 (\<lambda>topic new. plan_topic sv f topic [] = Inr new)
       (parse_topics (topic_input f)) per_topic"
    and c: "rows = concat per_topic"
    by blast
  from assms(2) c obtain new where n: "new \<in> set per_topic" and r: "r \<in> set new"
    by auto
  from n obtain i where i: "i < length per_topic" and ni: "per_topic ! i = new"
    by (auto simp: in_set_conv_nth)
  from l i ni have p: "plan_topic sv f (parse_topics (topic_input f) ! i) [] = Inr new"
    and len: "i < length (parse_topics (topic_input f))"
    by (auto simp: list_all2_conv_all_nth)
  from plan_topic_row_fields [OF p r] len show ?thesis
    by simp
qed

text \<open>
  C7. When the run produces its rows, every row has an empty
  \<open>Data pubblicazione\<close> and an empty \<open>Immagine\<close>; the rows are the rows of the
  topics, in the order of the topics; and the rows of one topic are one per post
  that \<open>generate_posts\<close> returned for it, in order, each with the topic as
  \<open>Argomento\<close>, the stripped post as \<open>Contenuto post\<close>, and as \<open>Fonte\<close> the
  URLs of the search results of that topic joined with a comma and a space.
\<close>

theorem plan_rows:
  assumes "run_planner sv f = Inr rows"
  shows "(\<forall>r\<in>set rows. data_pubblicazione r = [] \<and> immagine r = []) \<and>
    (\<exists>per_topic.
       list_all2 (\<lambda>topic new. plan_topic sv f topic [] = Inr new)
         (parse_topics (topic_input f)) per_topic \<and>
       rows = concat per_topic) \<and>
    (\<forall>topic new. plan_topic sv f topic [] = Inr new \<longrightarrow>
       (\<exists>serp sources_text urls summary posts ps contents.
          get_serp_results sv (build_query f topic) = Inr serp \<and>
          map (\<lambda>r. py_getitem r ''url'') serp = map Inr urls \<and>
          gather_sources sv serp [] [] = Inr (sources_text, urls) \<and>
          summarize_sources sv topic sources_text = Inr summary \<and>
          generate_posts sv (business f) (sector f) topic (brief f) summary (n_posts f)
            = Inr posts \<and>
          py_iter posts = Inr ps \<and>
          map py_strip ps = map Inr contents \<and>
          length new = length ps \<and>
          (ps = [] \<or>
           (\<exists>us. urls = map JStr us \<and>
              new = map (\<lambda>content.
                  \<lparr>data_pubblicazione = [], argomento = topic, fonte = join '', '' us,
                   contenuto_post = content, immagine = []\<rparr>) contents))))"
proof (intro conjI ballI allI impI)
  fix r assume "r \<in> set rows"
  from run_planner_row [OF assms this]
  show "data_pubblicazione r = []" and "immagine r = []" by simp_all
next
  show "\<exists>per_topic.
       list_all2 (\<lambda>topic new. plan_topic sv f topic [] = Inr new)
         (parse_topics (topic_input f)) per_topic \<and>
       rows = concat per_topic"
    by (rule run_planner_Inr [OF assms])
next
  fix topic new assume p: "plan_topic sv f topic [] = Inr new"
  from plan_topic_Inr [OF p] obtain serp sources_text urls summary posts ps contents where
    1: "get_serp_results sv (build_query f topic) = Inr serp"
    "map (\<lambda>r. py_getitem r ''url'') serp = map Inr urls"
    "gather_sources sv serp [] [] = Inr (sources_text, urls)"
    "summarize_sources sv topic sources_text = Inr summary"
    "generate_posts sv (business f) (sector f) topic (brief f) summary (n_posts f) = Inr posts"
    "py_iter posts = Inr ps"
    and m: "map py_strip ps = map Inr contents"
    and o: "ps = [] \<and> new = [] \<or>
      (\<exists>us. urls = map JStr us \<and> new = [] @ map (new_row topic (join '', '' us)) contents)"
    by blast
  from m have "length ps = length contents"
    by (rule map_eq_imp_length_eq)
  with o have len: "length new = length ps"
    by auto
  from o have "ps = [] \<or>
           (\<exists>us. urls = map JStr us \<and>
              new = map (\<lambda>content.
                  \<lparr>data_pubblicazione = [], argomento = topic, fonte = join '', '' us,
                   contenuto_post = content, immagine = []\<rparr>) contents)"
    by (auto simp: new_row_def)
  with 1 m len show "\<exists>serp sources_text urls summary posts ps contents.
          get_serp_results sv (build_query f topic) = Inr serp \<and>
          map (\<lambda>r. py_getitem r ''url'') serp = map Inr urls \<and>
          gather_sources sv serp [] [] = Inr (sources_text, urls) \<and>
          summarize_sources sv topic sources_text = Inr summary \<and>
          generate_posts sv (business f) (sector f) topic (brief f) summary (n_posts f)
            = Inr posts \<and>
          py_iter posts = Inr ps \<and>
          map py_strip ps = map Inr contents \<and>
          length new = length ps \<and>
          (ps = [] \<or>
           (\<exists>us. urls = map JStr us \<and>
              new = map (\<lambda>content.
                  \<lparr>data_pubblicazione = [], argomento = topic, fonte = join '', '' us,
                   contenuto_post = content, immagine = []\<rparr>) contents))"
    by blast
qed

theorem plan_rows_witness:
  "run_planner sample_world sample_form =
   Inr [new_row sample_topic
          ''https://a.example, https://b.example, https://c.example, https://d.example, https://e.example''
          ''a'',
        new_row sample_topic
          ''https://a.example, https://b.example, https://c.example, https://d.example, https://e.example''
          ''b''] \<and>
   (\<exists>per_topic.
       list_all2 (\<lambda>topic new. plan_topic sample_world sample_form topic [] = Inr new)
         (parse_topics (topic_input sample_form)) per_topic \<and>
       [new_row sample_topic
          ''https://a.example, https://b.example, https://c.example, https://d.example, https://e.example''
          ''a'',
        new_row sample_topic
          ''https://a.example, https://b.example, https://c.example, https://d.example, https://e.example''
          ''b''] = concat per_topic)"
  using plan_rows [OF sample_run] sample_run by blast

text \<open>
  C8. The topics of a run are the lines of the input, split at newlines, each
  stripped, the empty ones dropped: no topic is empty or made of whitespace only
  (none begins or ends with whitespace, none holds a newline), and every row the
  run produces carries one of these topics.
\<close>

theorem topics_without_blanks:
  "parse_topics (topic_input f) =
     filter (\<lambda>t. t \<noteq> []) (map strip (split_on (CHR 0x0A) (topic_input f))) \<and>
   (\<forall>t\<in>set (parse_topics (topic_input f)).
      t \<noteq> [] \<and> \<not> list_all is_space t \<and> \<not> is_space (hd t) \<and> \<not> is_space (last t) \<and>
      CHR 0x0A \<notin> set t) \<and>
   (\<forall>rows. run_planner sv f = Inr rows \<longrightarrow>
      (\<forall>r\<in>set rows. argomento r \<in> set (parse_topics (topic_input f))))"
proof (intro conjI ballI allI impI)
  show "parse_topics (topic_input f) =
     filter (\<lambda>t. t \<noteq> []) (map strip (split_on (CHR 0x0A) (topic_input f)))"
    by (rule parse_topics_eq)
next
  fix t assume t: "t \<in> set (parse_topics (topic_input f))"
  from parse_topics_member [OF t]
  show "t \<noteq> []" and h: "\<not> is_space (hd t)" and "\<not> is_space (last t)" and "CHR 0x0A \<notin> set t"
    by simp_all
  from \<open>t \<noteq> []\<close> h show "\<not> list_all is_space t"
    by (cases t) auto
next
  fix rows r assume "run_planner sv f = Inr rows" and "r \<in> set rows"
  from run_planner_row [OF this] show "argomento r \<in> set (parse_topics (topic_input f))"
    by simp
qed

theorem topics_without_blanks_witness:
  "parse_topics (topic_input sample_form) = [sample_topic] \<and>
   filter (\<lambda>t. t \<noteq> []) (map strip (split_on (CHR 0x0A) (topic_input sample_form))) = [sample_topic]"
proof -
  have a: "parse_topics (topic_input sample_form) =
     filter (\<lambda>t. t \<noteq> []) (map strip (split_on (CHR 0x0A) (topic_input sample_form)))"
    using topics_without_blanks [of sample_form] by (rule conjunct1)
  show ?thesis
    by (rule conjI [OF sample_topics trans [OF a [symmetric] sample_topics]])
qed

end
